theory Spec2Isabelle
  imports Main
begin

section \<open>Python values, exceptions and outcomes\<close>

text \<open>
  The program is \<^verbatim>\<open>run.py\<close>: \<^verbatim>\<open>display_assets_table\<close>, \<^verbatim>\<open>download_asset\<close>,
  \<^verbatim>\<open>main\<close> and the script body under \<^verbatim>\<open>__main__\<close>. Every call either returns a value
  or raises; the exceptions that the handlers of the program tell apart are
  \<^verbatim>\<open>ValueError\<close>, \<^verbatim>\<open>EOFError\<close> and the class \<^verbatim>\<open>Exception\<close> itself, of which
  \<^verbatim>\<open>KeyboardInterrupt\<close> and \<^verbatim>\<open>asyncio.CancelledError\<close> are not members.
  \<^verbatim>\<open>MarkupError\<close> is what \<^verbatim>\<open>rich\<close> raises when it cannot parse a line as markup.
\<close>

datatype exn =
    OSError | ValueError | EOFError | KeyError
  | ClientError | TimeoutError | MarkupError
  | KeyboardInterrupt | CancelledError

fun is_Exception :: "exn \<Rightarrow> bool" where
  "is_Exception KeyboardInterrupt = False"
| "is_Exception CancelledError = False"
| "is_Exception _ = True"

datatype 'a outcome = Return 'a | Raise exn

type_synonym bytes = "char list"

text \<open>
  An asset is the dictionary that \<^verbatim>\<open>msstore.fetch_assets\<close> yields. The keys
  \<^verbatim>\<open>name\<close>, \<^verbatim>\<open>arch\<close>, \<^verbatim>\<open>extension\<close> and \<^verbatim>\<open>url\<close> are always present; \<^verbatim>\<open>modified\<close>
  and \<^verbatim>\<open>locale\<close> may be absent, which is \<open>None\<close> here.
\<close>

record asset =
  name :: string
  arch :: string
  extension :: string
  url :: string
  modified :: "string option"
  asset_locale :: "string option"

section \<open>The world: files, network, console\<close>

text \<open>
  What the network answers to a GET: the request raises, or a response arrives with a
  status and a body. The body is given as the stream reader sees it: the list holds, for
  each read in turn, the bytes that its buffer gained since the read before (none, when
  the read found enough left over). The last component tells how the stream ends:
  \<open>None\<close> is the end of the body, \<open>Some e\<close> means that the read after those raises
  \<open>e\<close>, as on a connection reset or when the total timeout expires.
\<close>

datatype http_reply =
    Get_raises exn
  | Response nat "bytes list" "exn option"

text \<open>
  The lines that the program puts on the console, one constructor per line of the source,
  with the values it interpolates.
\<close>

datatype msg =
    Assets_table "(nat \<times> string \<times> string \<times> string \<times> string) list" bool
  | Downloading_to string
  | Download_completed
  | Download_failed_with_status nat
  | Download_error exn
  | Processing_URL string
  | Auto_download_mode_enabled
  | Getting_product_information
  | Auto_selecting_first_asset string
  | Asset_downloaded_to string
  | Failed_to_download_asset
  | No_assets_available
  | Enter_the_number
  | Your_choice
  | Selected string
  | Invalid_selection
  | Invalid_input
  | Running_in_non_interactive_mode
  | Error_message exn

text \<open>
  What the program did to the outside, call by call: a line printed, a successful
  \<^verbatim>\<open>os.makedirs\<close>, a GET sent, a file opened with \<^verbatim>\<open>"wb"\<close>, a call of \<^verbatim>\<open>f.write\<close>.
\<close>

datatype event =
    Print msg
  | Makedirs string
  | Get string
  | Open_wb string
  | Write string bytes

text \<open>
  The mutable state: what the files hold, under the names by which the program opens
  them, and the log of events in order.
\<close>

record world =
  files :: "string \<rightharpoonup> bytes"
  trace :: "event list"

text \<open>
  The surroundings that the program reads but does not define:
  \<^item> the directory of the script, \<^verbatim>\<open>os.path.dirname(os.path.abspath(__file__))\<close>;
  \<^item> what \<^verbatim>\<open>os.path.exists\<close> answers for a path (a run asks once, before the program has
    written anything);
  \<^item> whether the system refuses \<^verbatim>\<open>os.makedirs\<close> or \<^verbatim>\<open>open\<close> for a path (the call then
    raises \<^verbatim>\<open>OSError\<close>);
  \<^item> how many bytes the disk takes for a file (\<open>None\<close>: as many as are written);
  \<^item> what the network answers for a URL;
  \<^item> what \<^verbatim>\<open>msstore.fetch_assets\<close> yields for a product URL;
  \<^item> the line that the operator types at the prompt, or the exception that reading it
    raises;
  \<^item> whether \<^verbatim>\<open>rich\<close> rejects the markup of a line once the values are interpolated.
\<close>

record env =
  script_dir :: string
  path_exists :: "string \<Rightarrow> bool"
  makedirs_refused :: "string \<Rightarrow> bool"
  open_refused :: "string \<Rightarrow> bool"
  disk_room :: "string \<Rightarrow> nat option"
  http_get :: "string \<Rightarrow> http_reply"
  fetch_assets :: "string \<Rightarrow> (asset list \<times> bool) outcome"
  prompt_input :: "string outcome"
  markup_rejected :: "msg \<Rightarrow> bool"

definition emit :: "event \<Rightarrow> world \<Rightarrow> world" where
  "emit e w = w\<lparr>trace := trace w @ [e]\<rparr>"

text \<open>One statement after another: the second runs when the first has returned.\<close>

definition and_then ::
  "'a outcome \<times> world \<Rightarrow> ('a \<Rightarrow> world \<Rightarrow> 'b outcome \<times> world) \<Rightarrow> 'b outcome \<times> world" where
  "and_then r f = (case r of (Raise e, w) \<Rightarrow> (Raise e, w) | (Return v, w) \<Rightarrow> f v w)"

text \<open>A \<^verbatim>\<open>try\<close> block with one \<^verbatim>\<open>except\<close> clause.\<close>

definition try_except ::
  "(exn \<Rightarrow> bool) \<Rightarrow> (exn \<Rightarrow> world \<Rightarrow> 'a outcome \<times> world) \<Rightarrow> 'a outcome \<times> world
     \<Rightarrow> 'a outcome \<times> world" where
  "try_except caught handler r =
     (case r of
        (Raise e, w) \<Rightarrow> if caught e then handler e w else (Raise e, w)
      | (Return v, w) \<Rightarrow> (Return v, w))"

subsection \<open>Library calls\<close>

text \<open>
  \<^verbatim>\<open>console.print\<close> takes its argument as markup. A line whose text is all the program's
  own (the status of a response is a number) is well formed. A line with a path, a URL, a
  name, a table cell or the text of an exception in it is parsed with that text, and the
  call raises \<^verbatim>\<open>MarkupError\<close> when \<^verbatim>\<open>rich\<close> rejects it, as for a closing tag that matches
  no open one.
\<close>

fun fixed_text :: "msg \<Rightarrow> bool" where
  "fixed_text (Assets_table [] is_uwp) = True"
| "fixed_text (Assets_table (r # rs) is_uwp) = False"
| "fixed_text (Downloading_to p) = False"
| "fixed_text Download_completed = True"
| "fixed_text (Download_failed_with_status st) = True"
| "fixed_text (Download_error e) = False"
| "fixed_text (Processing_URL u) = False"
| "fixed_text Auto_download_mode_enabled = True"
| "fixed_text Getting_product_information = True"
| "fixed_text (Auto_selecting_first_asset n) = False"
| "fixed_text (Asset_downloaded_to p) = False"
| "fixed_text Failed_to_download_asset = True"
| "fixed_text No_assets_available = True"
| "fixed_text Enter_the_number = True"
| "fixed_text Your_choice = True"
| "fixed_text (Selected n) = False"
| "fixed_text Invalid_selection = True"
| "fixed_text Invalid_input = True"
| "fixed_text Running_in_non_interactive_mode = True"
| "fixed_text (Error_message e) = False"

definition markup_error :: "env \<Rightarrow> msg \<Rightarrow> bool" where
  "markup_error en m = (\<not> fixed_text m \<and> markup_rejected en m)"

definition console_print :: "env \<Rightarrow> msg \<Rightarrow> world \<Rightarrow> unit outcome \<times> world" where
  "console_print en m w =
     (if markup_error en m then (Raise MarkupError, w) else (Return (), emit (Print m) w))"

text \<open>
  \<^verbatim>\<open>os.path.join\<close>, \<^verbatim>\<open>os.path.isabs\<close> and \<^verbatim>\<open>os.path.basename\<close> of \<^verbatim>\<open>posixpath\<close>, the first
  for two components.
\<close>

definition os_path_join :: "string \<Rightarrow> string \<Rightarrow> string" where
  "os_path_join a b =
     (if take 1 b = ''/'' then b
      else if a = [] \<or> last a = CHR ''/'' then a @ b
      else a @ ''/'' @ b)"

definition os_path_isabs :: "string \<Rightarrow> bool" where
  "os_path_isabs p = (take 1 p = ''/'')"


text \<open>
  \<^verbatim>\<open>os.makedirs\<close>: raises on the empty path and where the system refuses; otherwise
  the directory is there afterwards, with the parents that were missing. The log records the
  call.
\<close>

definition os_makedirs :: "env \<Rightarrow> string \<Rightarrow> world \<Rightarrow> unit outcome \<times> world" where
  "os_makedirs en d w =
     (if d = [] \<or> makedirs_refused en d then (Raise OSError, w)
      else (Return (), emit (Makedirs d) w))"

text \<open>
  \<^verbatim>\<open>open(file_path, "wb")\<close>: raises on the empty path and where the system refuses;
  otherwise the file exists afterwards and is empty, whatever it held before.
\<close>

definition truncated :: "string \<Rightarrow> world \<Rightarrow> world" where
  "truncated p w = emit (Open_wb p) (w\<lparr>files := (files w)(p \<mapsto> [])\<rparr>)"

definition open_wb :: "env \<Rightarrow> string \<Rightarrow> world \<Rightarrow> unit outcome \<times> world" where
  "open_wb en p w =
     (if p = [] \<or> open_refused en p then (Raise OSError, w)
      else (Return (), truncated p w))"

text \<open>
  \<^verbatim>\<open>f.write(chunk)\<close> appends to the open file. When the disk takes no more, the file
  keeps what fitted and the call (or the close of the file, which is inside the same
  \<^verbatim>\<open>try\<close>) raises \<^verbatim>\<open>OSError\<close>.
\<close>

definition stored :: "env \<Rightarrow> string \<Rightarrow> bytes \<Rightarrow> bytes" where
  "stored en p bs = (case disk_room en p of None \<Rightarrow> bs | Some r \<Rightarrow> take r bs)"

definition has_room :: "env \<Rightarrow> string \<Rightarrow> bytes \<Rightarrow> bool" where
  "has_room en p bs = (case disk_room en p of None \<Rightarrow> True | Some r \<Rightarrow> length bs \<le> r)"

definition file_write :: "env \<Rightarrow> string \<Rightarrow> bytes \<Rightarrow> world \<Rightarrow> unit outcome \<times> world" where
  "file_write en p c w =
     (let new = (case files w p of None \<Rightarrow> c | Some old \<Rightarrow> old @ c);
          w' = emit (Write p c) (w\<lparr>files := (files w)(p \<mapsto> stored en p new)\<rparr>)
      in if has_room en p new then (Return (), w') else (Raise OSError, w'))"

text \<open>
  \<^verbatim>\<open>response.content.iter_chunked(n)\<close> reads the stream again and again. A read hands
  over what is in the buffer, at most \<open>n\<close> bytes, and leaves the rest there for the next
  one; with an empty buffer it waits for data. At the end of the body the reads empty the
  buffer and the iteration stops; when the stream fails, the next read raises and what was
  left in the buffer is lost.
\<close>

function chunked :: "nat \<Rightarrow> bytes \<Rightarrow> bytes list" where
  "chunked n bs = (if n = 0 \<or> bs = [] then [] else take n bs # chunked n (drop n bs))"
  by pat_completeness auto
termination
  by (relation "measure (\<lambda>(n, bs). length bs)") auto

declare chunked.simps [simp del]

fun reads :: "nat \<Rightarrow> bytes \<Rightarrow> bytes list \<Rightarrow> bool \<Rightarrow> bytes list" where
  "reads n buffer [] at_end = (if at_end then chunked n buffer else [])"
| "reads n buffer (gained # later) at_end =
     (if n = 0 \<or> buffer @ gained = [] then reads n [] later at_end
      else take n (buffer @ gained) # reads n (drop n (buffer @ gained)) later at_end)"

definition iter_chunked :: "nat \<Rightarrow> bytes list \<Rightarrow> bool \<Rightarrow> bytes list" where
  "iter_chunked n body at_end = reads n [] body at_end"

section \<open>download_asset\<close>

text \<open>The loop of lines 71-72: one write per chunk, until a write raises.\<close>

fun write_chunks :: "env \<Rightarrow> string \<Rightarrow> bytes list \<Rightarrow> world \<Rightarrow> unit outcome \<times> world" where
  "write_chunks en p [] w = (Return (), w)"
| "write_chunks en p (c # cs) w =
     (case file_write en p c w of
        (Raise e, w') \<Rightarrow> (Raise e, w')
      | (Return u, w') \<Rightarrow> write_chunks en p cs w')"

text \<open>Lines 64-78, the body of the \<^verbatim>\<open>try\<close>.\<close>

definition download_request ::
  "env \<Rightarrow> asset \<Rightarrow> string \<Rightarrow> world \<Rightarrow> string option outcome \<times> world" where
  "download_request en a file_path w =
     (let w1 = emit (Get (url a)) w in
      case http_get en (url a) of
        Get_raises e \<Rightarrow> (Raise e, w1)
      | Response status body ending \<Rightarrow>
          if status = 200 then
            and_then (open_wb en file_path w1) (\<lambda>u w2.
            and_then (write_chunks en file_path (iter_chunked 8192 body (ending = None)) w2)
              (\<lambda>u w3.
                case ending of
                  Some e \<Rightarrow> (Raise e, w3)
                | None \<Rightarrow>
                    and_then (console_print en Download_completed w3) (\<lambda>u w4.
                      (Return (Some file_path), w4))))
          else
            and_then (console_print en (Download_failed_with_status status) w1) (\<lambda>u w2.
              (Return None, w2)))"

text \<open>Lines 50-52: the directory the download goes to.\<close>

definition download_dir_of :: "env \<Rightarrow> string option \<Rightarrow> string" where
  "download_dir_of en download_dir =
     (case download_dir of
        None \<Rightarrow> os_path_join (script_dir en) ''downloads''
      | Some d \<Rightarrow> d)"

text \<open>Lines 55-56, outside the \<^verbatim>\<open>try\<close>.\<close>

definition ensure_dir :: "env \<Rightarrow> string \<Rightarrow> world \<Rightarrow> unit outcome \<times> world" where
  "ensure_dir en d w = (if \<not> path_exists en d then os_makedirs en d w else (Return (), w))"

text \<open>
  The whole function. The print of line 60 is outside the \<^verbatim>\<open>try\<close>; the handler of
  lines 79-81 prints before it returns, and what that print raises leaves the function.
\<close>

definition download_asset ::
  "env \<Rightarrow> asset \<Rightarrow> string option \<Rightarrow> world \<Rightarrow> string option outcome \<times> world" where
  "download_asset en a download_dir w =
     (let d = download_dir_of en download_dir in
      and_then (ensure_dir en d w) (\<lambda>u w1.
        let file_path = os_path_join d (name a) in
        and_then (console_print en (Downloading_to file_path) w1) (\<lambda>u w2.
          try_except is_Exception
            (\<lambda>e w'. and_then (console_print en (Download_error e) w') (\<lambda>u w''.
               (Return None, w'')))
            (download_request en a file_path w2))))"

section \<open>display_assets_table\<close>

text \<open>
  One row per asset, numbered from 1. For a UWP product the row reads
  \<^verbatim>\<open>asset["modified"]\<close>, which raises \<^verbatim>\<open>KeyError\<close> when the key is absent; otherwise it
  reads \<^verbatim>\<open>asset.get("locale", "unknown")\<close>. The table is printed after the loop.
\<close>

type_synonym row = "nat \<times> string \<times> string \<times> string \<times> string"

definition table_row :: "bool \<Rightarrow> nat \<Rightarrow> asset \<Rightarrow> row outcome" where
  "table_row is_uwp i a =
     (if is_uwp then
        (case modified a of
           None \<Rightarrow> Raise KeyError
         | Some m \<Rightarrow> Return (i, name a, arch a, extension a, m))
      else Return (i, name a, arch a, extension a,
                   (case asset_locale a of None \<Rightarrow> ''unknown'' | Some l \<Rightarrow> l)))"

fun table_rows :: "bool \<Rightarrow> nat \<Rightarrow> asset list \<Rightarrow> row list outcome" where
  "table_rows is_uwp i [] = Return []"
| "table_rows is_uwp i (a # rest) =
     (case table_row is_uwp i a of
        Raise e \<Rightarrow> Raise e
      | Return r \<Rightarrow>
          (case table_rows is_uwp (Suc i) rest of
             Raise e \<Rightarrow> Raise e
           | Return rs \<Rightarrow> Return (r # rs)))"

definition display_assets_table ::
  "env \<Rightarrow> asset list \<Rightarrow> bool \<Rightarrow> world \<Rightarrow> unit outcome \<times> world" where
  "display_assets_table en assets is_uwp w =
     (case table_rows is_uwp 1 assets of
        Raise e \<Rightarrow> (Raise e, w)
      | Return rs \<Rightarrow> console_print en (Assets_table rs is_uwp) w)"

section \<open>Reading the operator's choice\<close>

text \<open>
  Strings are taken as ASCII. \<^verbatim>\<open>str.lower\<close> changes the letters A to Z;
  \<^verbatim>\<open>str.strip\<close> drops the blanks at both ends, where the characters 9 to 13, 28 to 31
  and 32 are blank.
\<close>

definition lower_char :: "char \<Rightarrow> char" where
  "lower_char c =
     (if 65 \<le> (of_char c :: nat) \<and> (of_char c :: nat) \<le> 90
      then char_of ((of_char c :: nat) + 32) else c)"

definition py_lower :: "string \<Rightarrow> string" where
  "py_lower s = map lower_char s"

definition is_blank :: "char \<Rightarrow> bool" where
  "is_blank c = ((of_char c :: nat) \<in> {9, 10, 11, 12, 13, 28, 29, 30, 31, 32})"

definition py_strip :: "string \<Rightarrow> string" where
  "py_strip s = rev (dropWhile is_blank (rev (dropWhile is_blank s)))"

text \<open>
  \<^verbatim>\<open>Prompt.ask("Your choice")\<close> shows the prompt, reads a line and returns it stripped;
  at the end of input the read raises \<^verbatim>\<open>EOFError\<close>.
\<close>

definition prompt_ask :: "env \<Rightarrow> world \<Rightarrow> string outcome \<times> world" where
  "prompt_ask en w =
     (case prompt_input en of
        Raise e \<Rightarrow> (Raise e, emit (Print Your_choice) w)
      | Return typed \<Rightarrow> (Return (py_strip typed), emit (Print Your_choice) w))"

text \<open>
  \<^verbatim>\<open>int(choice)\<close> on a string: the blanks 9 to 13 and 32 at both ends are dropped, one
  sign may come first, then decimal digits with single underscores between them, at most
  4300 digits. Anything else raises \<^verbatim>\<open>ValueError\<close>, which is \<open>None\<close> here.
\<close>

definition is_space :: "char \<Rightarrow> bool" where
  "is_space c = ((of_char c :: nat) \<in> {9, 10, 11, 12, 13, 32})"

definition int_strip :: "string \<Rightarrow> string" where
  "int_strip s = rev (dropWhile is_space (rev (dropWhile is_space s)))"

definition digit_of :: "char \<Rightarrow> nat option" where
  "digit_of c =
     (if 48 \<le> (of_char c :: nat) \<and> (of_char c :: nat) \<le> 57
      then Some ((of_char c :: nat) - 48) else None)"

fun digits_value :: "nat \<Rightarrow> string \<Rightarrow> nat option" where
  "digits_value acc [] = Some acc"
| "digits_value acc [c] =
     (case digit_of c of None \<Rightarrow> None | Some v \<Rightarrow> Some (10 * acc + v))"
| "digits_value acc (c # d # ds) =
     (if c = CHR ''_'' then
        (case digit_of d of None \<Rightarrow> None | Some v \<Rightarrow> digits_value (10 * acc + v) ds)
      else
        (case digit_of c of None \<Rightarrow> None | Some v \<Rightarrow> digits_value (10 * acc + v) (d # ds)))"

definition unsigned_value :: "string \<Rightarrow> nat option" where
  "unsigned_value s =
     (if 4300 < length (filter (\<lambda>c. digit_of c \<noteq> None) s) then None
      else case s of
        [] \<Rightarrow> None
      | c # cs \<Rightarrow> (case digit_of c of None \<Rightarrow> None | Some v \<Rightarrow> digits_value v cs))"

definition py_int :: "string \<Rightarrow> int option" where
  "py_int s =
     (case int_strip s of
        [] \<Rightarrow> None
      | c # cs \<Rightarrow>
          if c = CHR ''-'' then map_option (\<lambda>n. - int n) (unsigned_value cs)
          else if c = CHR ''+'' then map_option int (unsigned_value cs)
          else map_option int (unsigned_value (c # cs)))"

section \<open>main\<close>

text \<open>
  Lines 104-110 and 133-140: \<^verbatim>\<open>if file_path:\<close> is false for \<^verbatim>\<open>None\<close> and for the empty
  string.
\<close>

definition report_download ::
  "env \<Rightarrow> string option outcome \<times> world \<Rightarrow> bool outcome \<times> world" where
  "report_download en r =
     and_then r (\<lambda>file_path w.
       case file_path of
         None \<Rightarrow>
           and_then (console_print en Failed_to_download_asset w) (\<lambda>u w'. (Return False, w'))
       | Some p \<Rightarrow>
           if p \<noteq> [] then
             and_then (console_print en (Asset_downloaded_to p) w) (\<lambda>u w'. (Return True, w'))
           else
             and_then (console_print en Failed_to_download_asset w) (\<lambda>u w'. (Return False, w')))"

text \<open>Lines 99-114, the branch of \<^verbatim>\<open>if auto_download\<close>.\<close>

definition auto_branch ::
  "env \<Rightarrow> asset list \<Rightarrow> string option \<Rightarrow> world \<Rightarrow> bool outcome \<times> world" where
  "auto_branch en assets download_dir w =
     (case assets of
        [] \<Rightarrow> and_then (console_print en No_assets_available w) (\<lambda>u w'. (Return False, w'))
      | selected_asset # rest \<Rightarrow>
          and_then (console_print en (Auto_selecting_first_asset (name selected_asset)) w)
            (\<lambda>u w1. report_download en (download_asset en selected_asset download_dir w1)))"

text \<open>Lines 126-143, the body of the \<^verbatim>\<open>try\<close> whose handler is \<^verbatim>\<open>except ValueError\<close>.\<close>

definition select_branch ::
  "env \<Rightarrow> asset list \<Rightarrow> string option \<Rightarrow> string \<Rightarrow> world \<Rightarrow> bool outcome \<times> world" where
  "select_branch en assets download_dir choice w =
     (case py_int choice of
        None \<Rightarrow> (Raise ValueError, w)
      | Some n \<Rightarrow>
          let index = n - 1 in
          if 0 \<le> index \<and> index < int (length assets) then
            let selected_asset = assets ! nat index in
            and_then (console_print en (Selected (name selected_asset)) w) (\<lambda>u w1.
              report_download en (download_asset en selected_asset download_dir w1))
          else and_then (console_print en Invalid_selection w) (\<lambda>u w'. (Return False, w')))"

text \<open>Lines 117-151, the interactive mode.\<close>

definition interactive_branch ::
  "env \<Rightarrow> asset list \<Rightarrow> string option \<Rightarrow> world \<Rightarrow> bool outcome \<times> world" where
  "interactive_branch en assets download_dir w =
     and_then (console_print en Enter_the_number w) (\<lambda>u w1.
       try_except (\<lambda>e. e = EOFError)
         (\<lambda>e w'. and_then (console_print en Running_in_non_interactive_mode w') (\<lambda>u w''.
            (Return True, w'')))
         (and_then (prompt_ask en w1) (\<lambda>choice w2.
            if py_lower choice = ''q'' then (Return True, w2)
            else try_except (\<lambda>e. e = ValueError)
                   (\<lambda>e w'. and_then (console_print en Invalid_input w') (\<lambda>u w''.
                      (Return False, w'')))
                   (select_branch en assets download_dir choice w2))))"

text \<open>Lines 91-151, the body of the outer \<^verbatim>\<open>try\<close>.\<close>

definition main_body ::
  "env \<Rightarrow> string \<Rightarrow> bool \<Rightarrow> string option \<Rightarrow> world \<Rightarrow> bool outcome \<times> world" where
  "main_body en u auto_download download_dir w =
     and_then (console_print en Getting_product_information w) (\<lambda>x w1.
       case fetch_assets en u of
         Raise e \<Rightarrow> (Raise e, w1)
       | Return (assets, is_uwp) \<Rightarrow>
           and_then (display_assets_table en assets is_uwp w1) (\<lambda>x w2.
             if auto_download then auto_branch en assets download_dir w2
             else interactive_branch en assets download_dir w2))"

text \<open>
  The whole function. The prints of lines 86 and 88 are outside the \<^verbatim>\<open>try\<close>; the handler
  of lines 153-157 prints before it returns, and what that print raises leaves the function.
\<close>

definition main ::
  "env \<Rightarrow> string \<Rightarrow> bool \<Rightarrow> string option \<Rightarrow> world \<Rightarrow> bool outcome \<times> world" where
  "main en u auto_download download_dir w =
     and_then (console_print en (Processing_URL u) w) (\<lambda>x w1.
     and_then (if auto_download then console_print en Auto_download_mode_enabled w1
               else (Return (), w1)) (\<lambda>x w2.
       try_except is_Exception
         (\<lambda>e w'. and_then (console_print en (Error_message e) w') (\<lambda>x w''.
            (Return False, w'')))
         (main_body en u auto_download download_dir w2)))"

section \<open>The script\<close>

text \<open>
  Lines 175-178: the process ends with status 1 when \<^verbatim>\<open>main\<close> returns a false value and
  with status 0 when it returns a true one. When \<^verbatim>\<open>main\<close> raises an exception of class
  \<^verbatim>\<open>Exception\<close> nothing catches it, and the interpreter ends with status 1 as well.
\<close>

datatype exit_status = Exit nat | Uncaught exn

definition script ::
  "env \<Rightarrow> string \<Rightarrow> bool \<Rightarrow> string option \<Rightarrow> world \<Rightarrow> exit_status \<times> world" where
  "script en u auto_download download_dir w =
     (case main en u auto_download download_dir w of
        (Return success, w') \<Rightarrow> (if \<not> success then Exit 1 else Exit 0, w')
      | (Raise e, w') \<Rightarrow> (if is_Exception e then Exit 1 else Uncaught e, w'))"

section \<open>Observing a run\<close>

text \<open>The URLs requested and the files opened for writing, in order, as the log has them.\<close>

definition requested :: "event list \<Rightarrow> string list" where
  "requested evs = concat (map (\<lambda>ev. case ev of Get u \<Rightarrow> [u] | _ \<Rightarrow> []) evs)"

definition opened_paths :: "event list \<Rightarrow> string list" where
  "opened_paths evs = concat (map (\<lambda>ev. case ev of Open_wb p \<Rightarrow> [p] | _ \<Rightarrow> []) evs)"

section \<open>Sample inputs\<close>

text \<open>
  One UWP product with three assets; a machine where no directory exists yet, nothing is
  refused and the disk has room; a console that takes every line; a network that gives the
  same answer to every GET.
\<close>

definition sample_asset :: "string \<Rightarrow> asset" where
  "sample_asset n =
     \<lparr>name = n, arch = ''x64'', extension = ''msixbundle'',
      url = ''https://cdn.example/'' @ n, modified = Some ''2024-01-01'',
      asset_locale = None\<rparr>"

definition sample_assets :: "asset list" where
  "sample_assets =
     [sample_asset ''App_x64.msixbundle'', sample_asset ''App_arm64.msixbundle'',
      sample_asset ''App_x86.msixbundle'']"

definition sample_env :: "http_reply \<Rightarrow> env" where
  "sample_env reply =
     \<lparr>script_dir = ''/opt/tool'', path_exists = (\<lambda>p. False),
      makedirs_refused = (\<lambda>d. False), open_refused = (\<lambda>p. False),
      disk_room = (\<lambda>p. None), http_get = (\<lambda>u. reply),
      fetch_assets = (\<lambda>u. Return (sample_assets, True)), prompt_input = Return ''1'',
      markup_rejected = (\<lambda>m. False)\<rparr>"

definition fresh_world :: world where
  "fresh_world = \<lparr>files = Map.empty, trace = []\<rparr>"

section \<open>Sequencing, the console and the disk\<close>

lemma and_then_Return [simp]: "and_then (Return v, w) f = f v w"
  by (simp add: and_then_def)

lemma and_then_Raise [simp]: "and_then (Raise e, w) f = (Raise e, w)"
  by (simp add: and_then_def)

lemma try_except_Return [simp]: "try_except c h (Return v, w) = (Return v, w)"
  by (simp add: try_except_def)

lemma try_except_Raise [simp]:
  "try_except c h (Raise e, w) = (if c e then h e w else (Raise e, w))"
  by (simp add: try_except_def)

lemma emit_frame [simp]:
  "files (emit e w) = files w" "trace (emit e w) = trace w @ [e]"
  by (simp_all add: emit_def)

lemma console_print_fixed [simp]:
  "fixed_text m \<Longrightarrow> console_print en m w = (Return (), emit (Print m) w)"
  by (simp add: console_print_def markup_error_def)

lemma console_print_accepted:
  "\<not> markup_error en m \<Longrightarrow> console_print en m w = (Return (), emit (Print m) w)"
  by (simp add: console_print_def)

lemma console_print_rejected:
  "markup_error en m \<Longrightarrow> console_print en m w = (Raise MarkupError, w)"
  by (simp add: console_print_def)

lemma truncated_frame [simp]:
  "files (truncated p w) = (files w)(p \<mapsto> [])"
  "trace (truncated p w) = trace w @ [Open_wb p]"
  by (simp_all add: truncated_def)

lemma requested_simps [simp]:
  "requested [] = []"
  "requested (xs @ ys) = requested xs @ requested ys"
  "requested (Get u # evs) = u # requested evs"
  "requested (Print m # evs) = requested evs"
  "requested (Makedirs d # evs) = requested evs"
  "requested (Open_wb p # evs) = requested evs"
  "requested (Write p c # evs) = requested evs"
  by (simp_all add: requested_def)

lemma opened_paths_simps [simp]:
  "opened_paths [] = []"
  "opened_paths (xs @ ys) = opened_paths xs @ opened_paths ys"
  "opened_paths (Open_wb p # evs) = p # opened_paths evs"
  "opened_paths (Print m # evs) = opened_paths evs"
  "opened_paths (Makedirs d # evs) = opened_paths evs"
  "opened_paths (Get u # evs) = opened_paths evs"
  "opened_paths (Write p c # evs) = opened_paths evs"
  by (simp_all add: opened_paths_def)

lemma requested_writes [simp]: "requested (map (Write p) cs) = []"
  by (induction cs) simp_all

lemma opened_paths_writes [simp]: "opened_paths (map (Write p) cs) = []"
  by (induction cs) simp_all

subsection \<open>The disk\<close>

lemma has_room_shorter: "has_room en p (xs @ ys) \<Longrightarrow> has_room en p xs"
  by (auto simp: has_room_def split: option.splits)

lemma stored_fits: "has_room en p bs \<Longrightarrow> stored en p bs = bs"
  by (auto simp: has_room_def stored_def split: option.splits)

lemma stored_full: "\<not> has_room en p xs \<Longrightarrow> stored en p (xs @ ys) = stored en p xs"
  by (auto simp: has_room_def stored_def split: option.splits)

lemma stored_prefix: "\<exists>k. stored en p bs = take k bs"
  by (cases "disk_room en p") (auto simp: stored_def intro: exI [of _ "length bs"])

lemma file_write_fst:
  "files w p = Some old \<Longrightarrow>
     fst (file_write en p c w) = (if has_room en p (old @ c) then Return () else Raise OSError)"
  by (simp add: file_write_def Let_def)

lemma file_write_files:
  "files w p = Some old \<Longrightarrow>
     files (snd (file_write en p c w)) = (files w)(p \<mapsto> stored en p (old @ c))"
  by (simp add: file_write_def Let_def)

lemma file_write_trace: "trace (snd (file_write en p c w)) = trace w @ [Write p c]"
  by (simp add: file_write_def Let_def)

text \<open>The loop, for a file that holds \<open>old\<close> when it starts.\<close>

lemma write_chunks_fst:
  "files w p = Some old \<Longrightarrow> has_room en p old \<Longrightarrow>
     fst (write_chunks en p cs w) =
       (if has_room en p (old @ concat cs) then Return () else Raise OSError)"
proof (induction cs arbitrary: w old)
  case Nil
  then show ?case by simp
next
  case (Cons c cs)
  obtain r w' where step: "file_write en p c w = (r, w')"
    by (cases "file_write en p c w")
  have r: "r = (if has_room en p (old @ c) then Return () else Raise OSError)"
    using file_write_fst [OF Cons.prems(1), of en c] step by simp
  have w': "files w' p = Some (stored en p (old @ c))"
    using file_write_files [OF Cons.prems(1), of en c] step by simp
  show ?case
  proof (cases "has_room en p (old @ c)")
    case True
    with w' have "files w' p = Some (old @ c)" by (simp add: stored_fits)
    from Cons.IH [OF this True] step r True show ?thesis by simp
  next
    case False
    then have "\<not> has_room en p ((old @ c) @ concat cs)"
      using has_room_shorter by blast
    with step r False show ?thesis by simp
  qed
qed

lemma write_chunks_files:
  "files w p = Some old \<Longrightarrow> has_room en p old \<Longrightarrow>
     files (snd (write_chunks en p cs w)) = (files w)(p \<mapsto> stored en p (old @ concat cs))"
proof (induction cs arbitrary: w old)
  case Nil
  then show ?case by (simp add: stored_fits map_upd_triv)
next
  case (Cons c cs)
  obtain r w' where step: "file_write en p c w = (r, w')"
    by (cases "file_write en p c w")
  have r: "r = (if has_room en p (old @ c) then Return () else Raise OSError)"
    using file_write_fst [OF Cons.prems(1), of en c] step by simp
  have w': "files w' = (files w)(p \<mapsto> stored en p (old @ c))"
    using file_write_files [OF Cons.prems(1), of en c] step by simp
  show ?case
  proof (cases "has_room en p (old @ c)")
    case True
    with w' have "files w' p = Some (old @ c)" by (simp add: stored_fits)
    from Cons.IH [OF this True] step r True w' show ?thesis by (auto simp: fun_eq_iff)
  next
    case False
    with step r w' stored_full [OF False, of "concat cs"] show ?thesis by simp
  qed
qed

lemma write_chunks_trace:
  "\<exists>k. trace (snd (write_chunks en p cs w)) = trace w @ map (Write p) (take k cs)"
proof (induction cs arbitrary: w)
  case Nil
  then show ?case by simp
next
  case (Cons c cs)
  obtain r w' where step: "file_write en p c w = (r, w')"
    by (cases "file_write en p c w")
  have w': "trace w' = trace w @ [Write p c]"
    using file_write_trace [of en p c w] step by simp
  show ?case
  proof (cases r)
    case (Return u)
    from Cons.IH [of w'] obtain k where
      "trace (snd (write_chunks en p cs w')) = trace w' @ map (Write p) (take k cs)" ..
    with step Return w' have
      "trace (snd (write_chunks en p (c # cs) w)) = trace w @ map (Write p) (take (Suc k) (c # cs))"
      by simp
    then show ?thesis ..
  next
    case (Raise e)
    with step w' have
      "trace (snd (write_chunks en p (c # cs) w)) = trace w @ map (Write p) (take 1 (c # cs))"
      by simp
    then show ?thesis ..
  qed
qed

lemma write_chunks_trace_room:
  "files w p = Some old \<Longrightarrow> has_room en p (old @ concat cs) \<Longrightarrow>
     trace (snd (write_chunks en p cs w)) = trace w @ map (Write p) cs"
proof (induction cs arbitrary: w old)
  case Nil
  then show ?case by simp
next
  case (Cons c cs)
  obtain r w' where step: "file_write en p c w = (r, w')"
    by (cases "file_write en p c w")
  have room: "has_room en p (old @ c)"
    using Cons.prems(2) has_room_shorter [of en p "old @ c" "concat cs"] by simp
  have r: "r = Return ()"
    using file_write_fst [OF Cons.prems(1), of en c] step room by simp
  have w': "files w' p = Some (old @ c)" "trace w' = trace w @ [Write p c]"
    using file_write_files [OF Cons.prems(1), of en c] file_write_trace [of en p c w] step room
    by (simp_all add: stored_fits)
  from Cons.IH [OF w'(1)] Cons.prems(2) step r w'(2) show ?case by simp
qed

lemma write_chunks_requested [simp]:
  "requested (trace (snd (write_chunks en p cs w))) = requested (trace w)"
  using write_chunks_trace [of en p cs w] by auto

lemma write_chunks_opened_paths [simp]:
  "opened_paths (trace (snd (write_chunks en p cs w))) = opened_paths (trace w)"
  using write_chunks_trace [of en p cs w] by auto

section \<open>Reading the stream\<close>

lemma chunked_empty [simp]: "chunked n [] = []"
  by (simp add: chunked.simps)

lemma chunked_concat: "0 < n \<Longrightarrow> concat (chunked n bs) = bs"
proof (induction n bs rule: chunked.induct)
  case (1 n bs)
  show ?case
  proof (cases "bs = []")
    case True
    then show ?thesis by simp
  next
    case False
    with 1 have "concat (chunked n (drop n bs)) = drop n bs" by simp
    with False 1(2) show ?thesis
      by (subst chunked.simps) simp
  qed
qed



lemma chunked_short: "0 < n \<Longrightarrow> bs \<noteq> [] \<Longrightarrow> length bs \<le> n \<Longrightarrow> chunked n bs = [bs]"
  by (subst chunked.simps) simp


lemma reads_concat:
  "0 < n \<Longrightarrow> concat (reads n buffer body True) = buffer @ concat body"
proof (induction body arbitrary: buffer)
  case Nil
  then show ?case by (simp add: chunked_concat)
next
  case (Cons gained later)
  show ?case
  proof (cases "buffer @ gained = []")
    case True
    with Cons show ?thesis by simp
  next
    case False
    have "take n (buffer @ gained) @ drop n (buffer @ gained) @ concat later =
        buffer @ gained @ concat later"
      by (metis append.assoc append_take_drop_id)
    with False Cons show ?thesis by simp
  qed
qed

lemma reads_prefix:
  "0 < n \<Longrightarrow> \<exists>rest. buffer @ concat body = concat (reads n buffer body at_end) @ rest"
proof (induction body arbitrary: buffer)
  case Nil
  then show ?case by (simp add: chunked_concat)
next
  case (Cons gained later)
  show ?case
  proof (cases "buffer @ gained = []")
    case True
    with Cons.IH [OF Cons.prems, of "[]"] Cons.prems show ?thesis by simp
  next
    case False
    from Cons.IH [OF Cons.prems, of "drop n (buffer @ gained)"] obtain rest where
      "drop n (buffer @ gained) @ concat later =
         concat (reads n (drop n (buffer @ gained)) later at_end) @ rest" ..
    then have "take n (buffer @ gained) @ drop n (buffer @ gained) @ concat later =
        take n (buffer @ gained) @ concat (reads n (drop n (buffer @ gained)) later at_end) @ rest"
      by simp
    then have "buffer @ gained @ concat later =
        take n (buffer @ gained) @ concat (reads n (drop n (buffer @ gained)) later at_end) @ rest"
      by (metis append.assoc append_take_drop_id)
    with False Cons.prems show ?thesis by simp
  qed
qed


lemma iter_chunked_concat: "0 < n \<Longrightarrow> concat (iter_chunked n body True) = concat body"
  by (simp add: iter_chunked_def reads_concat)

lemma iter_chunked_prefix:
  "0 < n \<Longrightarrow> \<exists>rest. concat body = concat (iter_chunked n body at_end) @ rest"
  using reads_prefix [of n "[]" body at_end] by (simp add: iter_chunked_def)


section \<open>The steps of download_asset\<close>

subsection \<open>Lines 55-56\<close>

lemma ensure_dir_fst:
  "fst (ensure_dir en d w) =
     (if path_exists en d \<or> (d \<noteq> [] \<and> \<not> makedirs_refused en d) then Return ()
      else Raise OSError)"
  by (simp add: ensure_dir_def os_makedirs_def)

lemma ensure_dir_files [simp]: "files (snd (ensure_dir en d w)) = files w"
  by (simp add: ensure_dir_def os_makedirs_def)

lemma ensure_dir_trace:
  "trace (snd (ensure_dir en d w)) =
     trace w @ (if \<not> path_exists en d \<and> d \<noteq> [] \<and> \<not> makedirs_refused en d then [Makedirs d]
                else [])"
  by (simp add: ensure_dir_def os_makedirs_def)

lemma ensure_dir_requested [simp]:
  "requested (trace (snd (ensure_dir en d w))) = requested (trace w)"
  by (simp add: ensure_dir_trace)

lemma ensure_dir_opened_paths [simp]:
  "opened_paths (trace (snd (ensure_dir en d w))) = opened_paths (trace w)"
  by (simp add: ensure_dir_trace)

subsection \<open>Lines 64-78\<close>

lemma download_request_Get_raises:
  "http_get en (url a) = Get_raises e \<Longrightarrow>
     download_request en a p w = (Raise e, emit (Get (url a)) w)"
  by (simp add: download_request_def)

lemma download_request_status:
  "http_get en (url a) = Response st body ending \<Longrightarrow> st \<noteq> 200 \<Longrightarrow>
     download_request en a p w =
       (Return None, emit (Print (Download_failed_with_status st)) (emit (Get (url a)) w))"
  by (simp add: download_request_def)

lemma download_request_refused:
  "http_get en (url a) = Response 200 body ending \<Longrightarrow> p = [] \<or> open_refused en p \<Longrightarrow>
     download_request en a p w = (Raise OSError, emit (Get (url a)) w)"
  by (auto simp: download_request_def open_wb_def)

lemma download_request_stream:
  assumes "http_get en (url a) = Response 200 body ending"
    and "p \<noteq> []" and "\<not> open_refused en p"
  shows "fst (download_request en a p w) =
      (if \<not> has_room en p (concat (iter_chunked 8192 body (ending = None))) then Raise OSError
       else case ending of Some e \<Rightarrow> Raise e | None \<Rightarrow> Return (Some p))"
    and "files (snd (download_request en a p w)) =
      (files w)(p \<mapsto> stored en p (concat (iter_chunked 8192 body (ending = None))))"
    and "requested (trace (snd (download_request en a p w))) = requested (trace w) @ [url a]"
    and "opened_paths (trace (snd (download_request en a p w))) = opened_paths (trace w) @ [p]"
    and "has_room en p (concat (iter_chunked 8192 body (ending = None))) \<Longrightarrow>
      trace (snd (download_request en a p w)) =
        trace w @ [Get (url a), Open_wb p] @
        map (Write p) (iter_chunked 8192 body (ending = None)) @
        (case ending of None \<Rightarrow> [Print Download_completed] | Some e \<Rightarrow> [])"
proof -
  let ?cs = "iter_chunked 8192 body (ending = None)"
  let ?w2 = "truncated p (emit (Get (url a)) w)"
  obtain r w3 where loop: "write_chunks en p ?cs ?w2 = (r, w3)"
    by (cases "write_chunks en p ?cs ?w2")
  have opened: "files ?w2 p = Some []" by simp
  have empty: "has_room en p []"
    by (simp add: has_room_def split: option.split)
  have r: "r = (if has_room en p (concat ?cs) then Return () else Raise OSError)"
    using write_chunks_fst [OF opened empty, of ?cs] loop by simp
  have f: "files w3 = (files w)(p \<mapsto> stored en p (concat ?cs))"
    using write_chunks_files [OF opened empty, of ?cs] loop by simp
  have q: "requested (trace w3) = requested (trace w) @ [url a]"
    using write_chunks_requested [of en p ?cs ?w2] loop by simp
  have o: "opened_paths (trace w3) = opened_paths (trace w) @ [p]"
    using write_chunks_opened_paths [of en p ?cs ?w2] loop by simp
  have t: "has_room en p (concat ?cs) \<Longrightarrow>
      trace w3 = trace w @ [Get (url a), Open_wb p] @ map (Write p) ?cs"
    using write_chunks_trace_room [OF opened, of en ?cs] loop by simp
  have run: "download_request en a p w =
      and_then (r, w3) (\<lambda>u w3.
        case ending of
          Some e \<Rightarrow> (Raise e, w3)
        | None \<Rightarrow> and_then (console_print en Download_completed w3) (\<lambda>u w4.
                    (Return (Some p), w4)))"
    using assms loop by (simp add: download_request_def open_wb_def)
  show "fst (download_request en a p w) =
      (if \<not> has_room en p (concat ?cs) then Raise OSError
       else case ending of Some e \<Rightarrow> Raise e | None \<Rightarrow> Return (Some p))"
    by (simp add: run r split: option.split)
  show "files (snd (download_request en a p w)) = (files w)(p \<mapsto> stored en p (concat ?cs))"
    by (simp add: run r f split: option.split)
  show "requested (trace (snd (download_request en a p w))) = requested (trace w) @ [url a]"
    by (simp add: run r q split: option.split)
  show "opened_paths (trace (snd (download_request en a p w))) = opened_paths (trace w) @ [p]"
    by (simp add: run r o split: option.split)
  show "trace (snd (download_request en a p w)) =
        trace w @ [Get (url a), Open_wb p] @ map (Write p) ?cs @
        (case ending of None \<Rightarrow> [Print Download_completed] | Some e \<Rightarrow> [])"
    if "has_room en p (concat ?cs)"
    using that t by (simp add: run r split: option.split)
qed

subsection \<open>The handler of lines 79-81\<close>

lemma handled_download:
  "fst (try_except is_Exception
          (\<lambda>e w'. and_then (console_print en (Download_error e) w') (\<lambda>u w''. (Return None, w'')))
          r) =
     (case fst r of
        Return v \<Rightarrow> Return v
      | Raise e \<Rightarrow>
          if is_Exception e
          then (if markup_error en (Download_error e) then Raise MarkupError else Return None)
          else Raise e)"
  "files (snd (try_except is_Exception
          (\<lambda>e w'. and_then (console_print en (Download_error e) w') (\<lambda>u w''. (Return None, w'')))
          r)) = files (snd r)"
  "requested (trace (snd (try_except is_Exception
          (\<lambda>e w'. and_then (console_print en (Download_error e) w') (\<lambda>u w''. (Return None, w'')))
          r))) = requested (trace (snd r))"
  "opened_paths (trace (snd (try_except is_Exception
          (\<lambda>e w'. and_then (console_print en (Download_error e) w') (\<lambda>u w''. (Return None, w'')))
          r))) = opened_paths (trace (snd r))"
  "trace (snd (try_except is_Exception
          (\<lambda>e w'. and_then (console_print en (Download_error e) w') (\<lambda>u w''. (Return None, w'')))
          r)) =
     trace (snd r) @
     (case fst r of
        Return v \<Rightarrow> []
      | Raise e \<Rightarrow>
          if is_Exception e \<and> \<not> markup_error en (Download_error e)
          then [Print (Download_error e)] else [])"
  by (cases r; cases "fst r"; simp add: console_print_def)+

subsection \<open>The whole of download_asset\<close>

lemma download_asset_dir_fails:
  "\<not> (path_exists en (download_dir_of en download_dir) \<or>
       (download_dir_of en download_dir \<noteq> [] \<and>
        \<not> makedirs_refused en (download_dir_of en download_dir))) \<Longrightarrow>
     download_asset en a download_dir w = (Raise OSError, w)"
  by (simp add: download_asset_def ensure_dir_def os_makedirs_def Let_def)

lemma download_asset_line_60_fails:
  "fst (ensure_dir en (download_dir_of en download_dir) w) = Return () \<Longrightarrow>
   markup_error en (Downloading_to (os_path_join (download_dir_of en download_dir) (name a))) \<Longrightarrow>
     download_asset en a download_dir w =
       (Raise MarkupError, snd (ensure_dir en (download_dir_of en download_dir) w))"
  by (cases "ensure_dir en (download_dir_of en download_dir) w")
     (simp add: download_asset_def Let_def console_print_rejected)

lemma download_asset_unfold:
  "fst (ensure_dir en (download_dir_of en download_dir) w) = Return () \<Longrightarrow>
   \<not> markup_error en (Downloading_to (os_path_join (download_dir_of en download_dir) (name a))) \<Longrightarrow>
     download_asset en a download_dir w =
       try_except is_Exception
         (\<lambda>e w'. and_then (console_print en (Download_error e) w') (\<lambda>u w''. (Return None, w'')))
         (download_request en a (os_path_join (download_dir_of en download_dir) (name a))
            (emit (Print (Downloading_to (os_path_join (download_dir_of en download_dir) (name a))))
               (snd (ensure_dir en (download_dir_of en download_dir) w))))"
  by (cases "ensure_dir en (download_dir_of en download_dir) w")
     (simp add: download_asset_def Let_def console_print_accepted)

text \<open>
  The ways a call of download_asset can go, each with what it returns and what it leaves
  behind.
\<close>

lemma download_asset_cases [case_names dir_fails line_60_fails get_raises status refused streamed]:
  obtains
    (dir_fails)
      "fst (ensure_dir en (download_dir_of en download_dir) w) = Raise OSError"
      "download_asset en a download_dir w = (Raise OSError, w)"
  | (line_60_fails)
      "fst (ensure_dir en (download_dir_of en download_dir) w) = Return ()"
      "markup_error en (Downloading_to (os_path_join (download_dir_of en download_dir) (name a)))"
      "download_asset en a download_dir w = (Raise MarkupError, snd (ensure_dir en (download_dir_of en download_dir) w))"
  | (get_raises) e where
      "fst (ensure_dir en (download_dir_of en download_dir) w) = Return ()"
      "\<not> markup_error en (Downloading_to (os_path_join (download_dir_of en download_dir) (name a)))"
      "http_get en (url a) = Get_raises e"
      "fst (download_asset en a download_dir w) =
         (if is_Exception e
          then (if markup_error en (Download_error e) then Raise MarkupError else Return None)
          else Raise e)"
      "files (snd (download_asset en a download_dir w)) = files w"
      "requested (trace (snd (download_asset en a download_dir w))) = requested (trace w) @ [url a]"
      "opened_paths (trace (snd (download_asset en a download_dir w))) = opened_paths (trace w)"
  | (status) st body ending where
      "fst (ensure_dir en (download_dir_of en download_dir) w) = Return ()"
      "\<not> markup_error en (Downloading_to (os_path_join (download_dir_of en download_dir) (name a)))"
      "http_get en (url a) = Response st body ending"
      "st \<noteq> 200"
      "download_asset en a download_dir w =
         (Return None,
          emit (Print (Download_failed_with_status st))
            (emit (Get (url a)) (emit (Print (Downloading_to (os_path_join (download_dir_of en download_dir) (name a)))) (snd (ensure_dir en (download_dir_of en download_dir) w)))))"
  | (refused) body ending where
      "fst (ensure_dir en (download_dir_of en download_dir) w) = Return ()"
      "\<not> markup_error en (Downloading_to (os_path_join (download_dir_of en download_dir) (name a)))"
      "http_get en (url a) = Response 200 body ending"
      "(os_path_join (download_dir_of en download_dir) (name a)) = [] \<or> open_refused en (os_path_join (download_dir_of en download_dir) (name a))"
      "fst (download_asset en a download_dir w) =
         (if markup_error en (Download_error OSError) then Raise MarkupError else Return None)"
      "files (snd (download_asset en a download_dir w)) = files w"
      "requested (trace (snd (download_asset en a download_dir w))) = requested (trace w) @ [url a]"
      "opened_paths (trace (snd (download_asset en a download_dir w))) = opened_paths (trace w)"
  | (streamed) body ending where
      "fst (ensure_dir en (download_dir_of en download_dir) w) = Return ()"
      "\<not> markup_error en (Downloading_to (os_path_join (download_dir_of en download_dir) (name a)))"
      "http_get en (url a) = Response 200 body ending"
      "(os_path_join (download_dir_of en download_dir) (name a)) \<noteq> []" "\<not> open_refused en (os_path_join (download_dir_of en download_dir) (name a))"
      "fst (download_asset en a download_dir w) =
         (if \<not> has_room en (os_path_join (download_dir_of en download_dir) (name a)) (concat (iter_chunked 8192 body (ending = None)))
          then (if markup_error en (Download_error OSError) then Raise MarkupError
                else Return None)
          else case ending of
                 None \<Rightarrow> Return (Some (os_path_join (download_dir_of en download_dir) (name a)))
               | Some e \<Rightarrow>
                   if is_Exception e
                   then (if markup_error en (Download_error e) then Raise MarkupError
                         else Return None)
                   else Raise e)"
      "files (snd (download_asset en a download_dir w)) =
         (files w)((os_path_join (download_dir_of en download_dir) (name a)) \<mapsto> stored en (os_path_join (download_dir_of en download_dir) (name a)) (concat (iter_chunked 8192 body (ending = None))))"
      "requested (trace (snd (download_asset en a download_dir w))) = requested (trace w) @ [url a]"
      "opened_paths (trace (snd (download_asset en a download_dir w))) =
         opened_paths (trace w) @ [(os_path_join (download_dir_of en download_dir) (name a))]"
proof (cases "fst (ensure_dir en (download_dir_of en download_dir) w) = Return ()")
  case False
  then have no: "\<not> (path_exists en (download_dir_of en download_dir) \<or> ((download_dir_of en download_dir) \<noteq> [] \<and> \<not> makedirs_refused en (download_dir_of en download_dir)))"
    by (simp add: ensure_dir_fst split: if_splits)
  then have "fst (ensure_dir en (download_dir_of en download_dir) w) = Raise OSError"
    by (simp add: ensure_dir_fst)
  moreover have "download_asset en a download_dir w = (Raise OSError, w)"
    using no by (rule download_asset_dir_fails)
  ultimately show ?thesis by (rule dir_fails)
next
  case dir: True
  show ?thesis
  proof (cases "markup_error en (Downloading_to (os_path_join (download_dir_of en download_dir) (name a)))")
    case True
    from dir True download_asset_line_60_fails [OF dir True]
    show ?thesis
      by (rule line_60_fails)
  next
    case line: False
    let ?w2 = "emit (Print (Downloading_to (os_path_join (download_dir_of en download_dir) (name a)))) (snd (ensure_dir en (download_dir_of en download_dir) w))"
    note run = download_asset_unfold [OF dir line]
    show ?thesis
    proof (cases "http_get en (url a)")
      case (Get_raises e)
      note req = download_request_Get_raises [OF Get_raises, of "(os_path_join (download_dir_of en download_dir) (name a))" ?w2]
      show ?thesis
        by (rule get_raises [OF dir line Get_raises])
           (simp_all add: run req console_print_def)
    next
      case (Response st body ending)
      show ?thesis
      proof (cases "st = 200")
        case False
        show ?thesis
          by (rule status [OF dir line Response False])
             (simp add: run download_request_status [OF Response False])
      next
        case True
        note R = Response [unfolded True]
        show ?thesis
        proof (cases "(os_path_join (download_dir_of en download_dir) (name a)) = [] \<or> open_refused en (os_path_join (download_dir_of en download_dir) (name a))")
          case True
          note req = download_request_refused [OF R True, of ?w2]
          show ?thesis
            by (rule refused [OF dir line R True])
               (simp_all add: run req console_print_def)
        next
          case False
          then have ok: "(os_path_join (download_dir_of en download_dir) (name a)) \<noteq> []" "\<not> open_refused en (os_path_join (download_dir_of en download_dir) (name a))" by simp_all
          note req = download_request_stream [OF R ok, of ?w2]
          show ?thesis
            by (rule streamed [OF dir line R ok])
               (simp_all add: run handled_download req(1-4) split: option.split)
        qed
      qed
    qed
  qed
qed

lemma download_asset_fst_indep:
  "fst (download_asset en a download_dir w') = fst (download_asset en a download_dir w)"
proof -
  have same: "fst (ensure_dir en d w') = fst (ensure_dir en d w)" for d
    by (simp add: ensure_dir_fst)
  show ?thesis
  proof (cases rule: download_asset_cases [of en download_dir w a])
    case dir_fails
    then show ?thesis
      by (cases rule: download_asset_cases [of en download_dir w' a])
         (simp_all add: same)
  next
    case line_60_fails
    then show ?thesis
      by (cases rule: download_asset_cases [of en download_dir w' a])
         (simp_all add: same)
  next
    case (get_raises e)
    then show ?thesis
      by (cases rule: download_asset_cases [of en download_dir w' a])
         (simp_all add: same)
  next
    case (status st body ending)
    then show ?thesis
      by (cases rule: download_asset_cases [of en download_dir w' a])
         (simp_all add: same)
  next
    case (refused body ending)
    then show ?thesis
      by (cases rule: download_asset_cases [of en download_dir w' a])
         (auto simp: same)
  next
    case (streamed body ending)
    then show ?thesis
      by (cases rule: download_asset_cases [of en download_dir w' a])
         (auto simp: same)
  qed
qed

lemma os_path_join_isabs:
  "os_path_isabs (os_path_join d n) = (os_path_isabs d \<or> os_path_isabs n)"
  by (cases d; cases n) (auto simp: os_path_join_def os_path_isabs_def)

lemma default_dir_isabs:
  "os_path_isabs (download_dir_of en None) = os_path_isabs (script_dir en)"
  by (simp add: download_dir_of_def os_path_join_isabs) (simp add: os_path_isabs_def)

lemma received_prefix:
  "\<exists>k. stored en p (concat (iter_chunked 8192 body at_end)) = take k (concat body)"
proof -
  obtain rest where "concat body = concat (iter_chunked 8192 body at_end) @ rest"
    using iter_chunked_prefix [of 8192 body at_end] by auto
  then have whole: "concat (iter_chunked 8192 body at_end) =
      take (length (concat (iter_chunked 8192 body at_end))) (concat body)"
    by (metis append_eq_conv_conj)
  obtain k where "stored en p (concat (iter_chunked 8192 body at_end)) =
      take k (concat (iter_chunked 8192 body at_end))"
    using stored_prefix by blast
  with whole have "stored en p (concat (iter_chunked 8192 body at_end)) =
      take (min k (length (concat (iter_chunked 8192 body at_end)))) (concat body)"
    by (metis take_take)
  then show ?thesis ..
qed

subsection \<open>Evaluating a run on given inputs\<close>

lemmas download_defs =
  download_asset_def download_dir_of_def ensure_dir_def os_makedirs_def os_path_join_def
  download_request_def open_wb_def truncated_def iter_chunked_def console_print_def
  markup_error_def file_write_def has_room_def stored_def sample_env_def sample_asset_def
  fresh_world_def emit_def Let_def

section \<open>Properties of download_asset\<close>

text \<open>
  C1 (as amended). A call that returns the failure value leaves every file as it was,
  except when the destination file had been opened (status 200 and the open went
  through) before the write or the stream failed: then the destination holds the bytes
  read from the stream before the failure, as far as the disk took them, which is a first
  part of the body, and nothing removes it.
\<close>

theorem failed_download_leaves_received_bytes:
  assumes "fst (download_asset en a download_dir w) = Return None"
  shows "files (snd (download_asset en a download_dir w)) =
    (let p = os_path_join (download_dir_of en download_dir) (name a) in
     case http_get en (url a) of
       Get_raises e \<Rightarrow> files w
     | Response st body ending \<Rightarrow>
         if st = 200 \<and> p \<noteq> [] \<and> \<not> open_refused en p
         then (files w)(p \<mapsto> stored en p (concat (iter_chunked 8192 body (ending = None))))
         else files w)
    \<and> (\<forall>p body at_end. \<exists>k.
          stored en p (concat (iter_chunked 8192 body at_end)) = take k (concat body))"
proof -
  have "files (snd (download_asset en a download_dir w)) =
    (let p = os_path_join (download_dir_of en download_dir) (name a) in
     case http_get en (url a) of
       Get_raises e \<Rightarrow> files w
     | Response st body ending \<Rightarrow>
         if st = 200 \<and> p \<noteq> [] \<and> \<not> open_refused en p
         then (files w)(p \<mapsto> stored en p (concat (iter_chunked 8192 body (ending = None))))
         else files w)"
  proof (cases rule: download_asset_cases [of en download_dir w a])
    case dir_fails
    with assms show ?thesis by simp
  next
    case line_60_fails
    with assms show ?thesis by simp
  next
    case (get_raises e)
    then show ?thesis by simp
  next
    case (status st body ending)
    then show ?thesis by simp
  next
    case (refused body ending)
    then show ?thesis by (auto simp: Let_def)
  next
    case (streamed body ending)
    then show ?thesis by (simp add: Let_def)
  qed
  with received_prefix show ?thesis by blast
qed

theorem failed_download_leaves_received_bytes_witness:
  "fst (download_asset (sample_env (Response 200 [''INSTALLER_''] (Some TimeoutError)))
          (sample_asset ''App_x64.msixbundle'') (Some ''downloads'') fresh_world) = Return None \<and>
   files (snd (download_asset (sample_env (Response 200 [''INSTALLER_''] (Some TimeoutError)))
          (sample_asset ''App_x64.msixbundle'') (Some ''downloads'') fresh_world))
     = [''downloads/App_x64.msixbundle'' \<mapsto> ''INSTALLER_'']"
proof -
  have failed:
    "fst (download_asset (sample_env (Response 200 [''INSTALLER_''] (Some TimeoutError)))
          (sample_asset ''App_x64.msixbundle'') (Some ''downloads'') fresh_world) = Return None"
    by (simp add: download_defs)
  from failed_download_leaves_received_bytes [OF failed, THEN conjunct1] failed show ?thesis
    by (simp add: download_dir_of_def os_path_join_def sample_env_def sample_asset_def
          fresh_world_def stored_def iter_chunked_def)
qed

text \<open>
  C1 as stated fails: the stream breaks after ten bytes, the call returns the failure
  value, and the destination holds a file; the files are then the very ones that a
  successful download of a ten-byte body leaves.
\<close>

theorem failed_download_looks_complete_counterexample:
  "fst (download_asset (sample_env (Response 200 [''INSTALLER_''] (Some TimeoutError)))
          (sample_asset ''App_x64.msixbundle'') (Some ''downloads'') fresh_world) = Return None \<and>
   files fresh_world ''downloads/App_x64.msixbundle'' = None \<and>
   files (snd (download_asset (sample_env (Response 200 [''INSTALLER_''] (Some TimeoutError)))
          (sample_asset ''App_x64.msixbundle'') (Some ''downloads'') fresh_world))
     ''downloads/App_x64.msixbundle'' = Some ''INSTALLER_'' \<and>
   fst (download_asset (sample_env (Response 200 [''INSTALLER_''] None))
          (sample_asset ''App_x64.msixbundle'') (Some ''downloads'') fresh_world)
     = Return (Some ''downloads/App_x64.msixbundle'') \<and>
   files (snd (download_asset (sample_env (Response 200 [''INSTALLER_''] (Some TimeoutError)))
          (sample_asset ''App_x64.msixbundle'') (Some ''downloads'') fresh_world))
     = files (snd (download_asset (sample_env (Response 200 [''INSTALLER_''] None))
          (sample_asset ''App_x64.msixbundle'') (Some ''downloads'') fresh_world))"
  by (simp add: download_defs)

text \<open>
  C2 (as amended). When a response arrives and its status is not 200, download_asset
  returns the failure value \<open>None\<close>, which is the same for every status; the status goes
  to the console only. No file is opened, created or changed. The one thing the call does
  to the file system is \<^verbatim>\<open>os.makedirs\<close> on the destination directory, before the request,
  when \<^verbatim>\<open>os.path.exists\<close> did not find it.
\<close>

theorem non_success_status_writes_no_file:
  assumes "fst (ensure_dir en (download_dir_of en download_dir) w) = Return ()"
    and "\<not> markup_error en
           (Downloading_to (os_path_join (download_dir_of en download_dir) (name a)))"
    and "http_get en (url a) = Response st body ending"
    and "st \<noteq> 200"
  shows "fst (download_asset en a download_dir w) = Return None \<and>
    files (snd (download_asset en a download_dir w)) = files w \<and>
    trace (snd (download_asset en a download_dir w)) =
      trace w @
      (if path_exists en (download_dir_of en download_dir) then []
       else [Makedirs (download_dir_of en download_dir)]) @
      [Print (Downloading_to (os_path_join (download_dir_of en download_dir) (name a))),
       Get (url a), Print (Download_failed_with_status st)]"
proof (cases rule: download_asset_cases [of en download_dir w a])
  case dir_fails
  with assms show ?thesis by simp
next
  case line_60_fails
  with assms show ?thesis by simp
next
  case (get_raises e)
  with assms show ?thesis by simp
next
  case (status st' body' ending')
  with assms(1) show ?thesis
    using assms(3)
    by (auto simp: ensure_dir_trace ensure_dir_fst split: if_splits)
next
  case (refused body' ending')
  with assms show ?thesis by simp
next
  case (streamed body' ending')
  with assms show ?thesis by simp
qed

theorem non_success_status_writes_no_file_witness:
  "fst (download_asset ((sample_env (Response 404 [] None))\<lparr>path_exists := (\<lambda>p. True)\<rparr>)
          (sample_asset ''App_x64.msixbundle'') (Some ''downloads'') fresh_world) = Return None \<and>
   files (snd (download_asset ((sample_env (Response 404 [] None))\<lparr>path_exists := (\<lambda>p. True)\<rparr>)
          (sample_asset ''App_x64.msixbundle'') (Some ''downloads'') fresh_world)) = Map.empty \<and>
   trace (snd (download_asset ((sample_env (Response 404 [] None))\<lparr>path_exists := (\<lambda>p. True)\<rparr>)
          (sample_asset ''App_x64.msixbundle'') (Some ''downloads'') fresh_world)) =
     [Print (Downloading_to ''downloads/App_x64.msixbundle''),
      Get ''https://cdn.example/App_x64.msixbundle'', Print (Download_failed_with_status 404)]"
proof -
  let ?en = "(sample_env (Response 404 [] None))\<lparr>path_exists := (\<lambda>p. True)\<rparr>"
  let ?a = "sample_asset ''App_x64.msixbundle''"
  have dir: "fst (ensure_dir ?en (download_dir_of ?en (Some ''downloads'')) fresh_world) = Return ()"
    by (simp add: download_defs)
  have line: "\<not> markup_error ?en
      (Downloading_to (os_path_join (download_dir_of ?en (Some ''downloads'')) (name ?a)))"
    by (simp add: download_defs)
  have reply: "http_get ?en (url ?a) = Response 404 [] None"
    by (simp add: sample_env_def)
  have status: "(404::nat) \<noteq> 200" by simp
  from non_success_status_writes_no_file [OF dir line reply status] show ?thesis
    by (simp add: download_dir_of_def os_path_join_def sample_asset_def sample_env_def
          fresh_world_def)
qed

text \<open>
  C2 as stated fails twice: the value returned for status 404 is the value returned for
  status 500, so it carries no status; and the call has created the destination
  directory.
\<close>

theorem non_success_status_counterexample:
  "fst (download_asset (sample_env (Response 404 [] None)) (sample_asset ''App_x64.msixbundle'')
          (Some ''downloads'') fresh_world) = Return None \<and>
   fst (download_asset (sample_env (Response 500 [] None)) (sample_asset ''App_x64.msixbundle'')
          (Some ''downloads'') fresh_world) = Return None \<and>
   trace fresh_world = [] \<and>
   trace (snd (download_asset (sample_env (Response 404 [] None))
          (sample_asset ''App_x64.msixbundle'') (Some ''downloads'') fresh_world)) =
     [Makedirs ''downloads'', Print (Downloading_to ''downloads/App_x64.msixbundle''),
      Get ''https://cdn.example/App_x64.msixbundle'', Print (Download_failed_with_status 404)]"
  by (simp add: download_defs)

text \<open>
  C3 (as amended). On success download_asset returns
  \<^verbatim>\<open>os.path.join(download_dir, asset['name'])\<close>, the path of the file it wrote, which then
  holds the whole body. That path is absolute exactly when the directory or the asset
  name is; the default directory is absolute when the script's directory is. For a
  relative directory given by the caller and a relative name it is relative.
\<close>

theorem success_returns_joined_path:
  assumes "fst (download_asset en a download_dir w) = Return (Some p)"
  shows "p = os_path_join (download_dir_of en download_dir) (name a) \<and>
    (\<exists>segs. http_get en (url a) = Response 200 segs None \<and>
       files (snd (download_asset en a download_dir w)) p = Some (concat segs)) \<and>
    os_path_isabs p =
      (os_path_isabs (download_dir_of en download_dir) \<or> os_path_isabs (name a)) \<and>
    os_path_isabs (download_dir_of en None) = os_path_isabs (script_dir en)"
proof -
  let ?p = "os_path_join (download_dir_of en download_dir) (name a)"
  have main: "p = ?p \<and> (\<exists>segs. http_get en (url a) = Response 200 segs None \<and>
       files (snd (download_asset en a download_dir w)) p = Some (concat segs))"
  proof (cases rule: download_asset_cases [of en download_dir w a])
    case dir_fails
    with assms show ?thesis by simp
  next
    case line_60_fails
    with assms show ?thesis by simp
  next
    case (get_raises e)
    with assms show ?thesis by (simp split: if_splits)
  next
    case (status st body ending)
    with assms show ?thesis by simp
  next
    case (refused body ending)
    with assms show ?thesis by (simp split: if_splits)
  next
    case (streamed body ending)
    from streamed(6) assms have finished: "has_room en ?p (concat (iter_chunked 8192 body (ending = None)))"
      "ending = None" "p = ?p"
      by (auto split: if_splits option.splits)
    with streamed(3,7) show ?thesis
      by (simp add: stored_fits iter_chunked_concat)
  qed
  then show ?thesis
    by (auto simp: os_path_join_isabs default_dir_isabs)
qed

theorem success_returns_joined_path_witness:
  "''/opt/tool/downloads/App_x64.msixbundle'' =
     os_path_join (download_dir_of (sample_env (Response 200 [''INSTALLER_DATA''] None)) None)
       (name (sample_asset ''App_x64.msixbundle'')) \<and>
   os_path_isabs ''/opt/tool/downloads/App_x64.msixbundle''"
proof -
  have ok: "fst (download_asset (sample_env (Response 200 [''INSTALLER_DATA''] None))
      (sample_asset ''App_x64.msixbundle'') None fresh_world)
      = Return (Some ''/opt/tool/downloads/App_x64.msixbundle'')"
    by (simp add: download_defs)
  from success_returns_joined_path [OF ok] show ?thesis
    by (simp add: download_defs os_path_isabs_def)
qed

text \<open>
  C3 as stated fails for a relative directory: the download succeeds and the value
  returned is the relative path \<^verbatim>\<open>downloads/App_x64.msixbundle\<close>.
\<close>

theorem relative_dir_counterexample:
  "fst (download_asset (sample_env (Response 200 [''INSTALLER_DATA''] None))
      (sample_asset ''App_x64.msixbundle'') (Some ''downloads'') fresh_world)
     = Return (Some ''downloads/App_x64.msixbundle'') \<and>
   \<not> os_path_isabs ''downloads/App_x64.msixbundle'' \<and>
   files (snd (download_asset (sample_env (Response 200 [''INSTALLER_DATA''] None))
      (sample_asset ''App_x64.msixbundle'') (Some ''downloads'') fresh_world))
     ''downloads/App_x64.msixbundle'' = Some ''INSTALLER_DATA''"
  by (simp add: download_defs os_path_isabs_def)

text \<open>
  C4 (as amended). Once the destination directory is there and the console has taken
  the line of line 60, every exception of class \<^verbatim>\<open>Exception\<close> that the GET, the opening
  of the file, a write or the stream raises is caught inside download_asset; when the
  console takes the line that the handler prints, the call returns: the path when the
  whole body was read and written, and the failure value \<open>None\<close> in every other case.
  An exception from \<^verbatim>\<open>os.makedirs\<close> or from the print of line 60, both before the
  \<^verbatim>\<open>try\<close>, and one from the print inside the handler, do reach the caller.
\<close>

theorem transport_exceptions_become_failure:
  assumes "fst (ensure_dir en (download_dir_of en download_dir) w) = Return ()"
    and "\<not> markup_error en
           (Downloading_to (os_path_join (download_dir_of en download_dir) (name a)))"
    and "\<forall>e. \<not> markup_error en (Download_error e)"
    and "\<forall>e. http_get en (url a) = Get_raises e \<longrightarrow> is_Exception e"
    and "\<forall>st body e. http_get en (url a) = Response st body (Some e) \<longrightarrow> is_Exception e"
  shows "fst (download_asset en a download_dir w) =
    Return
      (let p = os_path_join (download_dir_of en download_dir) (name a) in
       case http_get en (url a) of
         Get_raises e \<Rightarrow> None
       | Response st body ending \<Rightarrow>
           if st = 200 \<and> p \<noteq> [] \<and> \<not> open_refused en p \<and>
              has_room en p (concat (iter_chunked 8192 body (ending = None))) \<and> ending = None
           then Some p else None)"
proof (cases rule: download_asset_cases [of en download_dir w a])
  case dir_fails
  with assms show ?thesis by simp
next
  case line_60_fails
  with assms show ?thesis by simp
next
  case (get_raises e)
  with assms(3,4) show ?thesis by simp
next
  case (status st body ending)
  then show ?thesis by simp
next
  case (refused body ending)
  with assms(3) show ?thesis by (auto simp: Let_def)
next
  case (streamed body ending)
  with assms(3,5) show ?thesis
    by (cases ending) (simp_all add: Let_def)
qed

theorem transport_exceptions_become_failure_witness:
  "fst (download_asset (sample_env (Response 200 [''INSTALLER_''] (Some TimeoutError)))
      (sample_asset ''App_x64.msixbundle'') (Some ''downloads'') fresh_world) = Return None \<and>
   fst (download_asset (sample_env (Get_raises ClientError))
      (sample_asset ''App_x64.msixbundle'') (Some ''downloads'') fresh_world) = Return None \<and>
   fst (download_asset
      ((sample_env (Response 200 [''INSTALLER_DATA''] None))\<lparr>open_refused := (\<lambda>p. True)\<rparr>)
      (sample_asset ''App_x64.msixbundle'') (Some ''downloads'') fresh_world) = Return None"
proof -
  let ?a = "sample_asset ''App_x64.msixbundle''"
  have dir: "fst (ensure_dir (sample_env r\<lparr>open_refused := f\<rparr>)
      (download_dir_of (sample_env r\<lparr>open_refused := f\<rparr>) (Some ''downloads'')) fresh_world)
      = Return ()" for r f
    by (simp add: download_defs)
  have line: "\<not> markup_error (sample_env r\<lparr>open_refused := f\<rparr>)
      (Downloading_to (os_path_join
         (download_dir_of (sample_env r\<lparr>open_refused := f\<rparr>) (Some ''downloads'')) (name ?a)))"
    for r f
    by (simp add: download_defs)
  have error_line: "\<forall>e. \<not> markup_error (sample_env r\<lparr>open_refused := f\<rparr>) (Download_error e)"
    for r f
    by (simp add: markup_error_def sample_env_def)
  have same: "sample_env r\<lparr>open_refused := (\<lambda>p. False)\<rparr> = sample_env r" for r
    by (simp add: sample_env_def)
  have broken: "fst (download_asset
      (sample_env (Response 200 [''INSTALLER_''] (Some TimeoutError))\<lparr>open_refused := (\<lambda>p. False)\<rparr>)
      ?a (Some ''downloads'') fresh_world) = Return None"
    by (subst transport_exceptions_become_failure [OF dir line error_line])
       (simp_all add: sample_env_def)
  have no_answer: "fst (download_asset
      (sample_env (Get_raises ClientError)\<lparr>open_refused := (\<lambda>p. False)\<rparr>)
      ?a (Some ''downloads'') fresh_world) = Return None"
    by (subst transport_exceptions_become_failure [OF dir line error_line])
       (simp_all add: sample_env_def)
  have no_open: "fst (download_asset
      (sample_env (Response 200 [''INSTALLER_DATA''] None)\<lparr>open_refused := (\<lambda>p. True)\<rparr>)
      ?a (Some ''downloads'') fresh_world) = Return None"
    by (subst transport_exceptions_become_failure [OF dir line error_line])
       (simp_all add: sample_env_def)
  from broken no_answer no_open show ?thesis
    by (simp add: same)
qed

text \<open>
  C4 as stated fails in three places: where the directory cannot be created,
  \<^verbatim>\<open>os.makedirs\<close> raises before the \<^verbatim>\<open>try\<close>; where \<^verbatim>\<open>rich\<close> rejects the path in the
  line of line 60, that print raises before the \<^verbatim>\<open>try\<close>; and where it rejects the text
  of the exception, the print inside the handler raises. Each time download_asset raises
  instead of returning.
\<close>

theorem makedirs_error_propagates_counterexample:
  "fst (download_asset
      ((sample_env (Response 200 [''INSTALLER_DATA''] None))\<lparr>makedirs_refused := (\<lambda>d. True)\<rparr>)
      (sample_asset ''App_x64.msixbundle'') (Some ''/proc/downloads'') fresh_world)
     = Raise OSError \<and>
   fst (download_asset
      ((sample_env (Response 200 [''INSTALLER_DATA''] None))
         \<lparr>markup_rejected := (\<lambda>m. m = Downloading_to ''d[/x]/App_x64.msixbundle'')\<rparr>)
      (sample_asset ''App_x64.msixbundle'') (Some ''d[/x]'') fresh_world)
     = Raise MarkupError \<and>
   fst (download_asset
      ((sample_env (Get_raises ClientError))
         \<lparr>markup_rejected := (\<lambda>m. m = Download_error ClientError)\<rparr>)
      (sample_asset ''App_x64.msixbundle'') (Some ''downloads'') fresh_world)
     = Raise MarkupError"
  by (simp add: download_defs)





section \<open>Paths, requests and the answer at the prompt\<close>









section \<open>The steps of main\<close>

lemma markup_error_fixed [simp]: "fixed_text m \<Longrightarrow> markup_error en m = False"
  by (simp add: markup_error_def)

lemma console_print_frame [simp]:
  "files (snd (console_print en m w)) = files w"
  "requested (trace (snd (console_print en m w))) = requested (trace w)"
  "opened_paths (trace (snd (console_print en m w))) = opened_paths (trace w)"
  by (simp_all add: console_print_def)

lemma table_rows_Raise: "table_rows is_uwp i assets = Raise e \<Longrightarrow> e = KeyError"
  by (induction assets arbitrary: i)
     (auto simp: table_row_def split: outcome.splits if_splits option.splits)

lemma report_download_fst:
  "fst (report_download en r) =
     (case fst r of
        Raise e \<Rightarrow> Raise e
      | Return None \<Rightarrow> Return False
      | Return (Some p) \<Rightarrow>
          if p = [] then Return False
          else if markup_error en (Asset_downloaded_to p) then Raise MarkupError
          else Return True)"
  by (cases r; cases "fst r")
     (auto simp: report_download_def console_print_def split: option.splits)


lemma handled_main:
  "fst (try_except is_Exception
          (\<lambda>e w'. and_then (console_print en (Error_message e) w') (\<lambda>x w''. (Return False, w'')))
          r) =
     (case fst r of
        Return v \<Rightarrow> Return v
      | Raise e \<Rightarrow>
          if is_Exception e
          then (if markup_error en (Error_message e) then Raise MarkupError else Return False)
          else Raise e)"
  "files (snd (try_except is_Exception
          (\<lambda>e w'. and_then (console_print en (Error_message e) w') (\<lambda>x w''. (Return False, w'')))
          r)) = files (snd r)"
  "requested (trace (snd (try_except is_Exception
          (\<lambda>e w'. and_then (console_print en (Error_message e) w') (\<lambda>x w''. (Return False, w'')))
          r))) = requested (trace (snd r))"
  "opened_paths (trace (snd (try_except is_Exception
          (\<lambda>e w'. and_then (console_print en (Error_message e) w') (\<lambda>x w''. (Return False, w'')))
          r))) = opened_paths (trace (snd r))"
  by (cases r; cases "fst r"; simp add: console_print_def)+

lemma main_unfold:
  "\<not> markup_error en (Processing_URL u) \<Longrightarrow>
     main en u auto_download download_dir w =
       try_except is_Exception
         (\<lambda>e w'. and_then (console_print en (Error_message e) w') (\<lambda>x w''. (Return False, w'')))
         (main_body en u auto_download download_dir
            (if auto_download
             then emit (Print Auto_download_mode_enabled) (emit (Print (Processing_URL u)) w)
             else emit (Print (Processing_URL u)) w))"
  by (simp add: main_def console_print_accepted)

lemma main_line_86_fails:
  "markup_error en (Processing_URL u) \<Longrightarrow>
     main en u auto_download download_dir w = (Raise MarkupError, w)"
  by (simp add: main_def console_print_rejected)

lemma main_body_listed:
  "fetch_assets en u = Return (assets, is_uwp) \<Longrightarrow> table_rows is_uwp 1 assets = Return rows \<Longrightarrow>
   \<not> markup_error en (Assets_table rows is_uwp) \<Longrightarrow>
     main_body en u auto_download download_dir w =
       (if auto_download
        then auto_branch en assets download_dir
               (emit (Print (Assets_table rows is_uwp))
                  (emit (Print Getting_product_information) w))
        else interactive_branch en assets download_dir
               (emit (Print (Assets_table rows is_uwp))
                  (emit (Print Getting_product_information) w)))"
  by (simp add: main_body_def display_assets_table_def console_print_accepted)

lemmas main_defs =
  main_def main_body_def auto_branch_def interactive_branch_def select_branch_def
  report_download_def display_assets_table_def table_row_def prompt_ask_def
  sample_assets_def script_def

section \<open>Properties of main\<close>




lemma script_fst:
  "fst (script en u auto_download download_dir w) =
     (case fst (main en u auto_download download_dir w) of
        Return success \<Rightarrow> if success then Exit 0 else Exit 1
      | Raise e \<Rightarrow> if is_Exception e then Exit 1 else Uncaught e)"
  by (cases "main en u auto_download download_dir w"; cases "fst (main en u auto_download download_dir w)")
     (auto simp: script_def)

text \<open>In auto mode a failure makes the body of the \<^verbatim>\<open>try\<close> return \<open>False\<close> or raise.\<close>

lemma auto_body_fails:
  assumes "(\<exists>e. fetch_assets en u = Raise e \<and> is_Exception e) \<or>
    (\<exists>assets is_uwp. fetch_assets en u = Return (assets, is_uwp) \<and>
       ((\<exists>e. table_rows is_uwp 1 assets = Raise e) \<or>
        assets = [] \<or>
        (\<exists>first rest. assets = first # rest \<and>
           (fst (download_asset en first download_dir w0) = Return None \<or>
            (\<exists>e. fst (download_asset en first download_dir w0) = Raise e \<and> is_Exception e)))))"
  shows "fst (main_body en u True download_dir w) = Return False \<or>
    (\<exists>e. fst (main_body en u True download_dir w) = Raise e \<and> is_Exception e)"
proof (cases "fetch_assets en u")
  case (Raise e)
  with assms have "is_Exception e" by auto
  with Raise show ?thesis by (simp add: main_body_def)
next
  case (Return listed)
  obtain assets is_uwp where listed: "listed = (assets, is_uwp)" by (cases listed)
  note fetch = Return [unfolded listed]
  from assms fetch have failure:
    "(\<exists>e. table_rows is_uwp 1 assets = Raise e) \<or> assets = [] \<or>
     (\<exists>first rest. assets = first # rest \<and>
        (fst (download_asset en first download_dir w0) = Return None \<or>
         (\<exists>e. fst (download_asset en first download_dir w0) = Raise e \<and> is_Exception e)))"
    by auto
  show ?thesis
  proof (cases "table_rows is_uwp 1 assets")
    case (Raise e)
    then have "e = KeyError" by (rule table_rows_Raise)
    with Raise fetch show ?thesis
      by (simp add: main_body_def display_assets_table_def)
  next
    case rows: (Return rows)
    show ?thesis
    proof (cases "markup_error en (Assets_table rows is_uwp)")
      case True
      with rows fetch show ?thesis
        by (simp add: main_body_def display_assets_table_def console_print_rejected)
    next
      case False
      note body = main_body_listed [OF fetch rows False, of True download_dir w]
      show ?thesis
      proof (cases assets)
        case Nil
        with body show ?thesis by (simp add: auto_branch_def)
      next
        case (Cons first rest)
        with failure rows have failed:
          "fst (download_asset en first download_dir w0) = Return None \<or>
           (\<exists>e. fst (download_asset en first download_dir w0) = Raise e \<and> is_Exception e)"
          by auto
        show ?thesis
        proof (cases "markup_error en (Auto_selecting_first_asset (name first))")
          case True
          with body Cons show ?thesis
            by (simp add: auto_branch_def console_print_rejected)
        next
          case False
          let ?w1 = "emit (Print (Auto_selecting_first_asset (name first)))
              (emit (Print (Assets_table rows is_uwp)) (emit (Print Getting_product_information) w))"
          have same: "fst (download_asset en first download_dir ?w1) =
              fst (download_asset en first download_dir w0)"
            by (rule download_asset_fst_indep)
          have "fst (main_body en u True download_dir w) =
              fst (report_download en (download_asset en first download_dir ?w1))"
            using body Cons False by (simp add: auto_branch_def console_print_accepted)
          with failed same show ?thesis
            by (auto simp: report_download_fst)
        qed
      qed
    qed
  qed
qed

text \<open>
  C8 (as amended). In auto mode every failure ends the process with status 1: when
  fetch_assets raises an exception of class \<^verbatim>\<open>Exception\<close>, when the table cannot be built,
  when there is no asset, and when download_asset returns the failure value or raises an
  exception of class \<^verbatim>\<open>Exception\<close>. main returns \<open>False\<close> then, provided the console takes
  the line with the URL (line 86) and the line with the error (line 154); where it does
  not, main raises, and the process ends with status 1 all the same.
\<close>

theorem auto_mode_failure_exits_1:
  assumes "(\<exists>e. fetch_assets en u = Raise e \<and> is_Exception e) \<or>
    (\<exists>assets is_uwp. fetch_assets en u = Return (assets, is_uwp) \<and>
       ((\<exists>e. table_rows is_uwp 1 assets = Raise e) \<or>
        assets = [] \<or>
        (\<exists>first rest. assets = first # rest \<and>
           (fst (download_asset en first download_dir w) = Return None \<or>
            (\<exists>e. fst (download_asset en first download_dir w) = Raise e \<and> is_Exception e)))))"
  shows "fst (script en u True download_dir w) = Exit 1 \<and>
    (\<not> markup_error en (Processing_URL u) \<and> (\<forall>e. \<not> markup_error en (Error_message e))
       \<longrightarrow> fst (main en u True download_dir w) = Return False)"
proof (cases "markup_error en (Processing_URL u)")
  case True
  then show ?thesis
    by (simp add: script_fst main_line_86_fails)
next
  case False
  let ?w2 = "emit (Print Auto_download_mode_enabled) (emit (Print (Processing_URL u)) w)"
  from auto_body_fails [OF assms, of ?w2]
  have body: "fst (main_body en u True download_dir ?w2) = Return False \<or>
    (\<exists>e. fst (main_body en u True download_dir ?w2) = Raise e \<and> is_Exception e)" .
  have run: "fst (main en u True download_dir w) =
     (case fst (main_body en u True download_dir ?w2) of
        Return v \<Rightarrow> Return v
      | Raise e \<Rightarrow>
          if is_Exception e
          then (if markup_error en (Error_message e) then Raise MarkupError else Return False)
          else Raise e)"
    by (simp add: main_unfold [OF False] handled_main(1))
  from body show ?thesis
    by (auto simp: script_fst run)
qed

theorem auto_mode_failure_exits_1_witness:
  "fst (main (sample_env (Response 404 [] None)) ''https://apps.microsoft.com/detail/9pdxgncfsczv''
          True None fresh_world) = Return False \<and>
   fst (script (sample_env (Response 404 [] None)) ''https://apps.microsoft.com/detail/9pdxgncfsczv''
          True None fresh_world) = Exit 1 \<and>
   fst (script ((sample_env (Response 404 [] None))\<lparr>fetch_assets := (\<lambda>u. Raise ClientError)\<rparr>)
          ''https://apps.microsoft.com/detail/9pdxgncfsczv'' True None fresh_world) = Exit 1"
proof -
  let ?en = "sample_env (Response 404 [] None)"
  let ?u = "''https://apps.microsoft.com/detail/9pdxgncfsczv''"
  have download_fails:
    "(\<exists>e. fetch_assets ?en ?u = Raise e \<and> is_Exception e) \<or>
     (\<exists>assets is_uwp. fetch_assets ?en ?u = Return (assets, is_uwp) \<and>
       ((\<exists>e. table_rows is_uwp 1 assets = Raise e) \<or>
        assets = [] \<or>
        (\<exists>first rest. assets = first # rest \<and>
           (fst (download_asset ?en first None fresh_world) = Return None \<or>
            (\<exists>e. fst (download_asset ?en first None fresh_world) = Raise e \<and> is_Exception e)))))"
    by (auto simp: sample_assets_def download_defs)
  have fetch_fails:
    "(\<exists>e. fetch_assets (?en\<lparr>fetch_assets := (\<lambda>u. Raise ClientError)\<rparr>) ?u = Raise e \<and>
          is_Exception e) \<or>
     (\<exists>assets is_uwp. fetch_assets (?en\<lparr>fetch_assets := (\<lambda>u. Raise ClientError)\<rparr>) ?u =
          Return (assets, is_uwp) \<and>
       ((\<exists>e. table_rows is_uwp 1 assets = Raise e) \<or>
        assets = [] \<or>
        (\<exists>first rest. assets = first # rest \<and>
           (fst (download_asset (?en\<lparr>fetch_assets := (\<lambda>u. Raise ClientError)\<rparr>) first None
                   fresh_world) = Return None \<or>
            (\<exists>e. fst (download_asset (?en\<lparr>fetch_assets := (\<lambda>u. Raise ClientError)\<rparr>) first None
                   fresh_world) = Raise e \<and> is_Exception e)))))"
    by simp
  have lines: "\<not> markup_error ?en (Processing_URL ?u) \<and> (\<forall>e. \<not> markup_error ?en (Error_message e))"
    by (simp add: markup_error_def sample_env_def)
  from auto_mode_failure_exits_1 [OF download_fails] auto_mode_failure_exits_1 [OF fetch_fails]
    lines
  show ?thesis
    by simp
qed

text \<open>
  C8 as stated fails on what main returns: fetch_assets raises, the handler prints the
  text of the exception, \<^verbatim>\<open>rich\<close> rejects it, and main raises instead of returning
  \<open>False\<close>. The process ends with status 1.
\<close>

theorem error_line_counterexample:
  "fst (main ((sample_env (Response 404 [] None))
          \<lparr>fetch_assets := (\<lambda>u. Raise ClientError),
           markup_rejected := (\<lambda>m. m = Error_message ClientError)\<rparr>)
      ''https://apps.microsoft.com/detail/9pdxgncfsczv'' True None fresh_world)
     = Raise MarkupError \<and>
   fst (script ((sample_env (Response 404 [] None))
          \<lparr>fetch_assets := (\<lambda>u. Raise ClientError),
           markup_rejected := (\<lambda>m. m = Error_message ClientError)\<rparr>)
      ''https://apps.microsoft.com/detail/9pdxgncfsczv'' True None fresh_world) = Exit 1"
  by (simp add: main_defs download_defs)

text \<open>
  C9. In auto mode, when fetch_assets is reached (the console has taken the line with
  the URL) and yields an empty list, main returns \<open>False\<close>; it prints its lines and does
  nothing else: no directory is created, no request is sent, no file is opened or written.
\<close>

theorem auto_mode_no_assets:
  assumes "fetch_assets en u = Return ([], is_uwp)"
    and "\<not> markup_error en (Processing_URL u)"
  shows "fst (main en u True download_dir w) = Return False \<and>
    files (snd (main en u True download_dir w)) = files w \<and>
    trace (snd (main en u True download_dir w)) =
      trace w @
      [Print (Processing_URL u), Print Auto_download_mode_enabled,
       Print Getting_product_information, Print (Assets_table [] is_uwp),
       Print No_assets_available]"
proof -
  have rows: "table_rows is_uwp 1 [] = Return []" by simp
  have table: "\<not> markup_error en (Assets_table [] is_uwp)" by simp
  show ?thesis
    by (simp add: main_unfold [OF assms(2)] main_body_listed [OF assms(1) rows table]
          auto_branch_def)
qed

theorem auto_mode_no_assets_witness:
  "fst (main ((sample_env (Response 200 [''INSTALLER_DATA''] None))
                \<lparr>fetch_assets := (\<lambda>u. Return ([], True))\<rparr>)
          ''https://apps.microsoft.com/detail/9pdxgncfsczv'' True None fresh_world) = Return False \<and>
   files (snd (main ((sample_env (Response 200 [''INSTALLER_DATA''] None))
                \<lparr>fetch_assets := (\<lambda>u. Return ([], True))\<rparr>)
          ''https://apps.microsoft.com/detail/9pdxgncfsczv'' True None fresh_world)) = Map.empty \<and>
   trace (snd (main ((sample_env (Response 200 [''INSTALLER_DATA''] None))
                \<lparr>fetch_assets := (\<lambda>u. Return ([], True))\<rparr>)
          ''https://apps.microsoft.com/detail/9pdxgncfsczv'' True None fresh_world)) =
     [Print (Processing_URL ''https://apps.microsoft.com/detail/9pdxgncfsczv''),
      Print Auto_download_mode_enabled, Print Getting_product_information,
      Print (Assets_table [] True), Print No_assets_available]"
proof -
  let ?en = "(sample_env (Response 200 [''INSTALLER_DATA''] None))
                \<lparr>fetch_assets := (\<lambda>u. Return ([], True))\<rparr>"
  have empty: "fetch_assets ?en ''https://apps.microsoft.com/detail/9pdxgncfsczv'' = Return ([], True)"
    by simp
  have line: "\<not> markup_error ?en (Processing_URL ''https://apps.microsoft.com/detail/9pdxgncfsczv'')"
    by (simp add: markup_error_def sample_env_def)
  from auto_mode_no_assets [OF empty line, of None fresh_world] show ?thesis
    by (simp add: fresh_world_def)
qed









end
